theory Spec2Isabelle
  imports Main
begin

section \<open>The beautification manager (features/BeautificationManager.js)\<close>

text \<open>
  The module asks the registered beautification providers of the active editor's language,
  one after the other, for beautified code, applies the first answer to the editor and
  tells the user when no provider answered. It also keeps the "beautify on save"
  preference. The model is a run-to-completion model: one call of a handler is followed
  until its promise chain has settled, with no other handler interleaved.
\<close>

subsection \<open>The host editor\<close>

record pos =
  line :: nat
  ch :: nat

text \<open>
  Modelled from the spec: the editor object (editor/Editor.js and the CodeMirror document
  behind it are not part of the module). The spec lists what the editor offers: the file
  path, the full text, a range-read operation, cursor get/set, selection get/clear and
  text-replace operations on a range and on the selection. The document is one string
  whose lines are separated by the newline character; a position outside the text is
  clipped to the text when it is turned into an offset; a range whose end lies before its
  start reads as the empty string; the selection reaches from \<open>anchor\<close> to
  \<open>cursor\<close> and there is one when the two are different places of the text; the
  editor keeps the texts it replaced as its undo history.
\<close>

record editor =
  fullPath :: string
  fileName :: string
  docText :: string
  anchor :: pos
  cursor :: pos
  undoStack :: "string list"

definition newline :: char where
  "newline = CHR 0x0A"

text \<open>The offset of line \<open>l\<close>, column \<open>c\<close> in a text, clipped to the line and to the text.\<close>

fun indexFromPos :: "string \<Rightarrow> nat \<Rightarrow> nat \<Rightarrow> nat" where
  "indexFromPos [] l c = 0"
| "indexFromPos (x # xs) 0 0 = 0"
| "indexFromPos (x # xs) 0 (Suc c) = (if x = newline then 0 else Suc (indexFromPos xs 0 c))"
| "indexFromPos (x # xs) (Suc l) c =
     Suc (indexFromPos xs (if x = newline then l else Suc l) c)"

definition offsetOf :: "string \<Rightarrow> pos \<Rightarrow> nat" where
  "offsetOf t p = indexFromPos t (line p) (ch p)"

text \<open>The position of the end of a text: the number of its last line and that line's length.\<close>

fun endingPos :: "string \<Rightarrow> pos" where
  "endingPos [] = \<lparr>line = 0, ch = 0\<rparr>"
| "endingPos (x # xs) =
     (let p = endingPos xs in
      if x = newline then \<lparr>line = Suc (line p), ch = ch p\<rparr>
      else if line p = 0 then \<lparr>line = 0, ch = Suc (ch p)\<rparr>
      else p)"

definition posFromIndex :: "string \<Rightarrow> nat \<Rightarrow> pos" where
  "posFromIndex t i = endingPos (take i t)"

definition getRange :: "editor \<Rightarrow> pos \<Rightarrow> pos \<Rightarrow> string" where
  "getRange ed s e =
     (let i = offsetOf (docText ed) s; j = offsetOf (docText ed) e
      in take (j - i) (drop i (docText ed)))"

definition getEndingCursorPos :: "editor \<Rightarrow> pos" where
  "getEndingCursorPos ed = endingPos (docText ed)"

definition getCursorPos :: "editor \<Rightarrow> pos" where
  "getCursorPos ed = cursor ed"

definition setCursorPos :: "nat \<Rightarrow> nat \<Rightarrow> editor \<Rightarrow> editor" where
  "setCursorPos l c ed = ed\<lparr>anchor := \<lparr>line = l, ch = c\<rparr>, cursor := \<lparr>line = l, ch = c\<rparr>\<rparr>"

definition setSelection :: "pos \<Rightarrow> pos \<Rightarrow> editor \<Rightarrow> editor" where
  "setSelection s e ed = ed\<lparr>anchor := s, cursor := e\<rparr>"

definition hasSelection :: "editor \<Rightarrow> bool" where
  "hasSelection ed = (offsetOf (docText ed) (anchor ed) \<noteq> offsetOf (docText ed) (cursor ed))"

definition clearSelection :: "editor \<Rightarrow> editor" where
  "clearSelection ed = (let p = getCursorPos ed in setCursorPos (line p) (ch p) ed)"

text \<open>
  Replacing the text between two offsets. A selection end that lies inside the replaced
  span moves to the end of the inserted text, one behind the span moves with the text.
\<close>

definition spliceText :: "string \<Rightarrow> nat \<Rightarrow> nat \<Rightarrow> string \<Rightarrow> string" where
  "spliceText new i j t = take i t @ new @ drop j t"

definition adjustForChange :: "string \<Rightarrow> nat \<Rightarrow> nat \<Rightarrow> string \<Rightarrow> pos \<Rightarrow> pos" where
  "adjustForChange new i j t p =
     (let k = offsetOf t p; t' = spliceText new i j t in
      if k < i then p
      else if k \<le> j then posFromIndex t' (i + length new)
      else posFromIndex t' (k - j + i + length new))"

definition replaceRange :: "string \<Rightarrow> pos \<Rightarrow> pos \<Rightarrow> editor \<Rightarrow> editor" where
  "replaceRange new s e ed =
     (let t = docText ed;
          i = min (offsetOf t s) (offsetOf t e);
          j = max (offsetOf t s) (offsetOf t e)
      in ed\<lparr>docText := spliceText new i j t,
            anchor := adjustForChange new i j t (anchor ed),
            cursor := adjustForChange new i j t (cursor ed),
            undoStack := t # undoStack ed\<rparr>)"

text \<open>
  Replacing the selection, with the inserted text selected afterwards (the \<open>'around'\<close>
  argument of the call).
\<close>

definition replaceSelection :: "string \<Rightarrow> editor \<Rightarrow> editor" where
  "replaceSelection new ed =
     (let t = docText ed;
          i = min (offsetOf t (anchor ed)) (offsetOf t (cursor ed));
          j = max (offsetOf t (anchor ed)) (offsetOf t (cursor ed));
          t' = spliceText new i j t
      in ed\<lparr>docText := t',
            anchor := posFromIndex t' i,
            cursor := posFromIndex t' (i + length new),
            undoStack := t # undoStack ed\<rparr>)"

subsection \<open>Providers and their answers\<close>

record replace_ranges =
  replaceStart :: pos
  replaceEnd :: pos

text \<open>
  The object a provider resolves with. \<open>changedText\<close> is a string, as the module's
  documentation says; the only test the module applies to it before using it is whether it
  is falsy, and the empty string stands for every falsy value of the field.
\<close>

record beauty_object =
  changedText :: string
  ranges :: "replace_ranges option"

text \<open>
  What the promise returned by \<open>provider.beautify(editor)\<close> does: it rejects (or the
  call throws), it resolves with a value, \<open>None\<close> for \<open>null\<close> and every other falsy
  value, or it never settles. A truthy value that carries no \<open>changedText\<close> goes the
  way of an object whose \<open>changedText\<close> is empty. The provider is handed the editor
  itself and may change it.
\<close>

datatype outcome = Rejected | Resolved "beauty_object option" | NeverSettles

record provider_object =
  beautify :: "(editor \<Rightarrow> outcome \<times> editor) option"

record item =
  provider :: provider_object

datatype message = BEAUTIFY_ERROR | BEAUTIFY_ERROR_SELECTION

text \<open>
  What the module does to its collaborators, in the order in which it does it. A provider
  is named by its place in the list of enabled providers; \<open>Beautify i ed\<close> is the call
  of the \<open>i\<close>-th provider's \<open>beautify\<close> with the editor in state \<open>ed\<close>;
  \<open>SetProjectBusy b n\<close> carries the file name that is put into the busy message.
\<close>

datatype event =
    SetProjectBusy bool string
  | Beautify nat editor
  | ConsoleError nat
  | ConsoleLog string
  | DisplayErrorMessageAtCursor message

record world =
  activeEditor :: "editor option"
  languageForPath :: "string \<Rightarrow> string"
  providersForLanguageId :: "string \<Rightarrow> item list"
  localStorage :: "string \<rightharpoonup> string"
  beautifyOnSaveChecked :: bool
  trace :: "event list"

subsection \<open>The module\<close>

definition getEnabledProviders :: "world \<Rightarrow> editor \<Rightarrow> item list" where
  "getEnabledProviders w ed = providersForLanguageId w (languageForPath w (fullPath ed))"

text \<open>
  How the promise of \<open>_getBeautifiedCodeDetails\<close> settles: it resolves with a value,
  rejects with the error "No Providers beautified text", or stays pending behind a
  provider that never settles.
\<close>

datatype details = Returned "beauty_object option" | NoProviders | Pending

text \<open>The \<open>for\<close> loop of \<open>_getBeautifiedCodeDetails\<close>, from the \<open>i\<close>-th provider on.\<close>

fun tryProviders :: "item list \<Rightarrow> nat \<Rightarrow> editor \<Rightarrow> event list \<Rightarrow> details \<times> editor \<times> event list" where
  "tryProviders [] i ed tr = (NoProviders, ed, tr)"
| "tryProviders (it # its) i ed tr =
     (case beautify (provider it) of
        None \<Rightarrow> tryProviders its (Suc i) ed (tr @ [ConsoleError i])
      | Some b \<Rightarrow>
          (case b ed of
             (Resolved (Some beautyObject), ed') \<Rightarrow>
                (Returned (Some beautyObject), ed', tr @ [Beautify i ed])
           | (Resolved None, ed') \<Rightarrow> tryProviders its (Suc i) ed' (tr @ [Beautify i ed])
           | (Rejected, ed') \<Rightarrow> tryProviders its (Suc i) ed' (tr @ [Beautify i ed])
           | (NeverSettles, ed') \<Rightarrow> (Pending, ed', tr @ [Beautify i ed])))"

definition getBeautifiedCodeDetails :: "world \<Rightarrow> editor \<Rightarrow> event list \<Rightarrow> details \<times> editor \<times> event list" where
  "getBeautifiedCodeDetails w ed tr = tryProviders (getEnabledProviders w ed) 0 ed tr"

definition replaceText :: "editor \<Rightarrow> beauty_object \<Rightarrow> editor" where
  "replaceText ed beautyObject =
     (case ranges beautyObject of
        Some r \<Rightarrow>
          if getRange ed (replaceStart r) (replaceEnd r) \<noteq> changedText beautyObject
          then replaceSelection (changedText beautyObject)
                 (setSelection (replaceStart r) (replaceEnd r) ed)
          else ed
      | None \<Rightarrow>
          if getRange ed \<lparr>line = 0, ch = 0\<rparr> (getEndingCursorPos ed) \<noteq> changedText beautyObject
          then (let c = getCursorPos ed in
                setCursorPos (line c) (ch c)
                  (replaceRange (changedText beautyObject) \<lparr>line = 0, ch = 0\<rparr>
                     (getEndingCursorPos ed) ed))
          else ed)"

text \<open>
  \<open>_prettify\<close>, followed until the promise chain has settled. The \<open>then\<close> handler
  gets the value of \<open>_getBeautifiedCodeDetails\<close>, the \<open>catch\<close> handler its
  rejection; when the promise stays pending neither runs. The calls into the editor are
  taken not to throw.
\<close>

definition prettify :: "world \<Rightarrow> world" where
  "prettify w =
     (case activeEditor w of
        None \<Rightarrow> w
      | Some ed \<Rightarrow>
          (let busyMessage = fileName ed in
           case getBeautifiedCodeDetails w ed (trace w @ [SetProjectBusy True busyMessage]) of
             (Returned v, ed', tr) \<Rightarrow>
               (case v of
                  None \<Rightarrow> w\<lparr>activeEditor := Some ed', trace := tr\<rparr>
                | Some beautyObject \<Rightarrow>
                    if changedText beautyObject = []
                    then w\<lparr>activeEditor := Some ed', trace := tr\<rparr>
                    else w\<lparr>activeEditor := Some (replaceText ed' beautyObject),
                           trace := tr @ [SetProjectBusy False busyMessage,
                                          ConsoleLog ''Beautified'']\<rparr>)
           | (NoProviders, ed', tr) \<Rightarrow>
               w\<lparr>activeEditor := Some ed',
                 trace := tr @ [DisplayErrorMessageAtCursor
                                  (if hasSelection ed' then BEAUTIFY_ERROR_SELECTION
                                   else BEAUTIFY_ERROR),
                                SetProjectBusy False busyMessage,
                                ConsoleLog ''No beautify providers responded'']\<rparr>
           | (Pending, ed', tr) \<Rightarrow> w\<lparr>activeEditor := Some ed', trace := tr\<rparr>))"

definition isBeautifyOnSaveEnabled :: "world \<Rightarrow> bool" where
  "isBeautifyOnSaveEnabled w = (localStorage w ''BeautifyOnSave'' = Some ''true'')"

record saved_document =
  savedFullPath :: string

text \<open>
  The handler of the document-saved event. Its guard is
  \<open>!_isBeautifyOnSaveEnabled() || !editor || editor.document.file.fullPath !== doc.file.fullPath\<close>,
  tested from left to right.
\<close>

definition prettifyOnSave :: "world \<Rightarrow> saved_document \<Rightarrow> world" where
  "prettifyOnSave w doc =
     (if \<not> isBeautifyOnSaveEnabled w then w
      else case activeEditor w of
        None \<Rightarrow> w
      | Some ed \<Rightarrow>
          if fullPath ed \<noteq> savedFullPath doc then w
          else prettify (w\<lparr>activeEditor := Some (clearSelection ed)\<rparr>))"

definition toggleBeautifyOnSave :: "world \<Rightarrow> world" where
  "toggleBeautifyOnSave w =
     (let beautifyOnSave = isBeautifyOnSaveEnabled w in
      w\<lparr>localStorage := (localStorage w)(''BeautifyOnSave'' \<mapsto>
                           (if \<not> beautifyOnSave then ''true'' else ''false'')),
        beautifyOnSaveChecked := \<not> beautifyOnSave\<rparr>)"

subsection \<open>Vocabulary of the properties\<close>

text \<open>
  A provider that declines: it has a \<open>beautify\<close> function, the promise it returns
  rejects, and it leaves the editor as it found it.
\<close>

definition rejects :: "item \<Rightarrow> bool" where
  "rejects it = (\<exists>b. beautify (provider it) = Some b \<and> (\<forall>ed. b ed = (Rejected, ed)))"

text \<open>
  The events the user can perceive: the busy signal and the message at the cursor. Calls of
  providers and console output are not among them.
\<close>

fun userVisible :: "event \<Rightarrow> bool" where
  "userVisible (SetProjectBusy b n) = True"
| "userVisible (DisplayErrorMessageAtCursor m) = True"
| "userVisible (Beautify i ed) = False"
| "userVisible (ConsoleError i) = False"
| "userVisible (ConsoleLog s) = False"

text \<open>
  What a run of the provider loop amounts to: how the promise settles, the editor it
  leaves, and the user-visible events so far.
\<close>

definition summary :: "details \<times> editor \<times> event list \<Rightarrow> details \<times> editor \<times> event list" where
  "summary r = (fst r, fst (snd r), filter userVisible (snd (snd r)))"

text \<open>A provider that does not select text in an editor that has no selection.\<close>

definition keepsNoSelection :: "item \<Rightarrow> bool" where
  "keepsNoSelection it =
     (\<forall>b ed. beautify (provider it) = Some b \<and> \<not> hasSelection ed \<longrightarrow> \<not> hasSelection (snd (b ed)))"

text \<open>
  An event that saw no selection: a provider called with an editor without a selection, a
  message at the cursor that is the one for the whole document.
\<close>

fun seesNoSelection :: "event \<Rightarrow> bool" where
  "seesNoSelection (Beautify i ed) = (\<not> hasSelection ed)"
| "seesNoSelection (DisplayErrorMessageAtCursor m) = (m = BEAUTIFY_ERROR)"
| "seesNoSelection (SetProjectBusy b n) = True"
| "seesNoSelection (ConsoleError i) = True"
| "seesNoSelection (ConsoleLog s) = True"

text \<open>The events a handler added to the trace.\<close>

definition newEvents :: "world \<Rightarrow> world \<Rightarrow> event list" where
  "newEvents w w' = drop (length (trace w)) (trace w')"

text \<open>
  The calls of providers among some events, in order: the place of the provider in the list
  and the editor it was handed.
\<close>

fun providerCalls :: "event list \<Rightarrow> (nat \<times> editor) list" where
  "providerCalls [] = []"
| "providerCalls (Beautify i ed # es) = (i, ed) # providerCalls es"
| "providerCalls (e # es) = providerCalls es"

subsection \<open>Sample inputs\<close>

definition sampleEditor :: editor where
  "sampleEditor = \<lparr>fullPath = ''/p/a.js'', fileName = ''a.js'', docText = ''ab'',
     anchor = \<lparr>line = 0, ch = 0\<rparr>, cursor = \<lparr>line = 0, ch = 1\<rparr>, undoStack = []\<rparr>"

definition sampleWorld :: "item list \<Rightarrow> world" where
  "sampleWorld ps = \<lparr>activeEditor = Some sampleEditor,
     languageForPath = (\<lambda>p. if p = ''/p/a.js'' then ''javascript'' else ''text''),
     providersForLanguageId = (\<lambda>l. if l = ''javascript'' then ps else []),
     localStorage = Map.empty, beautifyOnSaveChecked = False, trace = []\<rparr>"

definition rejecting :: item where
  "rejecting = \<lparr>provider = \<lparr>beautify = Some (\<lambda>ed. (Rejected, ed))\<rparr>\<rparr>"

definition resolving :: "beauty_object option \<Rightarrow> item" where
  "resolving v = \<lparr>provider = \<lparr>beautify = Some (\<lambda>ed. (Resolved v, ed))\<rparr>\<rparr>"

definition malformed :: item where
  "malformed = \<lparr>provider = \<lparr>beautify = None\<rparr>\<rparr>"

text \<open>A provider that selects the first character of the document and then rejects.\<close>

definition selecting :: item where
  "selecting = \<lparr>provider = \<lparr>beautify = Some (\<lambda>ed.
     (Rejected, setSelection \<lparr>line = 0, ch = 0\<rparr> \<lparr>line = 0, ch = 1\<rparr> ed))\<rparr>\<rparr>"

section \<open>Properties\<close>

subsection \<open>Positions and ranges\<close>

lemma indexFromPos_le: "indexFromPos t l c \<le> length t"
  by (induction t l c rule: indexFromPos.induct) auto

lemma indexFromPos_origin: "indexFromPos t 0 0 = 0"
  by (cases t) auto

lemma indexFromPos_endingPos: "indexFromPos t (line (endingPos t)) (ch (endingPos t)) = length t"
  by (induction t) (auto simp: Let_def gr0_conv_Suc)

lemma offsetOf_origin: "offsetOf t \<lparr>line = 0, ch = 0\<rparr> = 0"
  by (simp add: offsetOf_def indexFromPos_origin)

lemma offsetOf_ending: "offsetOf (docText ed) (getEndingCursorPos ed) = length (docText ed)"
  by (simp add: offsetOf_def getEndingCursorPos_def indexFromPos_endingPos)

lemma getRange_whole: "getRange ed \<lparr>line = 0, ch = 0\<rparr> (getEndingCursorPos ed) = docText ed"
  by (simp add: getRange_def offsetOf_origin offsetOf_ending)

lemma getRange_slice:
  assumes "offsetOf (docText ed) s \<le> offsetOf (docText ed) e"
  shows "docText ed = take (offsetOf (docText ed) s) (docText ed) @ getRange ed s e
                        @ drop (offsetOf (docText ed) e) (docText ed)"
proof -
  let ?t = "docText ed" and ?i = "offsetOf (docText ed) s" and ?j = "offsetOf (docText ed) e"
  have "take (?j - ?i) (drop ?i ?t) @ drop ?j ?t = drop ?i ?t"
    using assms by (metis append_take_drop_id drop_drop le_add_diff_inverse2)
  then show ?thesis by (simp add: getRange_def Let_def)
qed

lemma docText_replaceRange_whole:
  "docText (replaceRange new \<lparr>line = 0, ch = 0\<rparr> (getEndingCursorPos ed) ed) = new"
  by (simp add: replaceRange_def Let_def offsetOf_origin offsetOf_ending spliceText_def)

subsection \<open>Applying a result\<close>

text \<open>
  C5. With ranges in the result, \<open>_replaceText\<close> compares the text the document holds
  between \<open>replaceStart\<close> and \<open>replaceEnd\<close> with \<open>changedText\<close>. When they are the
  same the editor is left exactly as it was: no text changes and nothing is added to the
  undo history. Otherwise, for a range whose start is not behind its end, the new text is
  the old text before the range, then \<open>changedText\<close>, then the old text after the
  range, in one undo step.
\<close>

theorem replaceText_ranges:
  assumes "ranges obj = Some r"
  shows "(getRange ed (replaceStart r) (replaceEnd r) = changedText obj \<longrightarrow> replaceText ed obj = ed)
    \<and> (getRange ed (replaceStart r) (replaceEnd r) \<noteq> changedText obj \<and>
        offsetOf (docText ed) (replaceStart r) \<le> offsetOf (docText ed) (replaceEnd r) \<longrightarrow>
        docText ed = take (offsetOf (docText ed) (replaceStart r)) (docText ed)
                       @ getRange ed (replaceStart r) (replaceEnd r)
                       @ drop (offsetOf (docText ed) (replaceEnd r)) (docText ed) \<and>
        docText (replaceText ed obj) =
          take (offsetOf (docText ed) (replaceStart r)) (docText ed) @ changedText obj
            @ drop (offsetOf (docText ed) (replaceEnd r)) (docText ed) \<and>
        undoStack (replaceText ed obj) = docText ed # undoStack ed)"
proof (intro conjI impI)
  assume "getRange ed (replaceStart r) (replaceEnd r) = changedText obj"
  then show "replaceText ed obj = ed" using assms by (simp add: replaceText_def)
next
  assume a: "getRange ed (replaceStart r) (replaceEnd r) \<noteq> changedText obj \<and>
        offsetOf (docText ed) (replaceStart r) \<le> offsetOf (docText ed) (replaceEnd r)"
  then show "docText ed = take (offsetOf (docText ed) (replaceStart r)) (docText ed)
                       @ getRange ed (replaceStart r) (replaceEnd r)
                       @ drop (offsetOf (docText ed) (replaceEnd r)) (docText ed)"
    using getRange_slice by blast
  from a show "docText (replaceText ed obj) =
          take (offsetOf (docText ed) (replaceStart r)) (docText ed) @ changedText obj
            @ drop (offsetOf (docText ed) (replaceEnd r)) (docText ed)"
    using assms
    by (simp add: replaceText_def replaceSelection_def setSelection_def spliceText_def Let_def
        min_def max_def)
  from a show "undoStack (replaceText ed obj) = docText ed # undoStack ed"
    using assms by (simp add: replaceText_def replaceSelection_def setSelection_def Let_def)
qed

theorem replaceText_ranges_witness:
  "replaceText sampleEditor
     \<lparr>changedText = ''b'', ranges = Some \<lparr>replaceStart = \<lparr>line = 0, ch = 1\<rparr>,
                                          replaceEnd = \<lparr>line = 0, ch = 2\<rparr>\<rparr>\<rparr> = sampleEditor
   \<and> docText (replaceText sampleEditor
        \<lparr>changedText = ''xyz'', ranges = Some \<lparr>replaceStart = \<lparr>line = 0, ch = 1\<rparr>,
                                               replaceEnd = \<lparr>line = 0, ch = 2\<rparr>\<rparr>\<rparr>) = ''axyz''
   \<and> undoStack (replaceText sampleEditor
        \<lparr>changedText = ''xyz'', ranges = Some \<lparr>replaceStart = \<lparr>line = 0, ch = 1\<rparr>,
                                               replaceEnd = \<lparr>line = 0, ch = 2\<rparr>\<rparr>\<rparr>) = [''ab'']"
  using replaceText_ranges [of "\<lparr>changedText = ''b'', ranges = Some \<lparr>replaceStart = \<lparr>line = 0, ch = 1\<rparr>,
                                          replaceEnd = \<lparr>line = 0, ch = 2\<rparr>\<rparr>\<rparr>"
          "\<lparr>replaceStart = \<lparr>line = 0, ch = 1\<rparr>, replaceEnd = \<lparr>line = 0, ch = 2\<rparr>\<rparr>" sampleEditor]
        replaceText_ranges [of "\<lparr>changedText = ''xyz'', ranges = Some \<lparr>replaceStart = \<lparr>line = 0, ch = 1\<rparr>,
                                          replaceEnd = \<lparr>line = 0, ch = 2\<rparr>\<rparr>\<rparr>"
          "\<lparr>replaceStart = \<lparr>line = 0, ch = 1\<rparr>, replaceEnd = \<lparr>line = 0, ch = 2\<rparr>\<rparr>" sampleEditor]
  by (simp add: sampleEditor_def getRange_def offsetOf_def newline_def numeral_2_eq_2)

text \<open>
  C6. Without ranges, \<open>_replaceText\<close> compares the whole text of the document with
  \<open>changedText\<close>. When they are the same the editor is left exactly as it was. Otherwise
  the whole text becomes \<open>changedText\<close> and the cursor is set to the line and column it
  had before the replacement.
\<close>

theorem replaceText_whole:
  assumes "ranges obj = None"
  shows "(docText ed = changedText obj \<longrightarrow> replaceText ed obj = ed)
    \<and> (docText ed \<noteq> changedText obj \<longrightarrow>
         docText (replaceText ed obj) = changedText obj \<and>
         getCursorPos (replaceText ed obj) = getCursorPos ed \<and>
         replaceText ed obj =
           setCursorPos (line (getCursorPos ed)) (ch (getCursorPos ed))
             (replaceRange (changedText obj) \<lparr>line = 0, ch = 0\<rparr> (getEndingCursorPos ed) ed))"
proof -
  have whole: "getRange ed \<lparr>line = 0, ch = 0\<rparr> (getEndingCursorPos ed) = docText ed"
    by (rule getRange_whole)
  have eq: "docText ed = changedText obj \<Longrightarrow> replaceText ed obj = ed"
    using assms by (simp add: replaceText_def whole)
  have ne: "docText ed \<noteq> changedText obj \<Longrightarrow> replaceText ed obj =
           setCursorPos (line (getCursorPos ed)) (ch (getCursorPos ed))
             (replaceRange (changedText obj) \<lparr>line = 0, ch = 0\<rparr> (getEndingCursorPos ed) ed)"
    using assms by (simp add: replaceText_def whole Let_def)
  have keep: "docText (setCursorPos l c e) = docText e" for l c e
    by (simp add: setCursorPos_def)
  have cur: "getCursorPos (setCursorPos (line p) (ch p) e) = p" for p e
    by (simp add: setCursorPos_def getCursorPos_def)
  show ?thesis using eq ne by (simp add: keep cur docText_replaceRange_whole)
qed

theorem replaceText_whole_witness:
  "replaceText sampleEditor \<lparr>changedText = ''ab'', ranges = None\<rparr> = sampleEditor
   \<and> docText (replaceText sampleEditor \<lparr>changedText = ''a  b'', ranges = None\<rparr>) = ''a  b''
   \<and> getCursorPos (replaceText sampleEditor \<lparr>changedText = ''a  b'', ranges = None\<rparr>)
       = \<lparr>line = 0, ch = 1\<rparr>
   \<and> cursor (replaceRange ''a  b'' \<lparr>line = 0, ch = 0\<rparr> (getEndingCursorPos sampleEditor) sampleEditor)
       = \<lparr>line = 0, ch = 4\<rparr>"
  using replaceText_whole [of "\<lparr>changedText = ''ab'', ranges = None\<rparr>" sampleEditor]
        replaceText_whole [of "\<lparr>changedText = ''a  b'', ranges = None\<rparr>" sampleEditor]
  by (simp add: sampleEditor_def getCursorPos_def replaceRange_def getEndingCursorPos_def
      adjustForChange_def spliceText_def posFromIndex_def offsetOf_def newline_def Let_def
      setCursorPos_def)

subsection \<open>Trying the providers in order\<close>

lemma tryProviders_rejecting:
  "\<forall>it\<in>set pre. rejects it \<Longrightarrow>
   tryProviders (pre @ rest) i ed tr =
   tryProviders rest (i + length pre) ed (tr @ map (\<lambda>k. Beautify k ed) [i..<i + length pre])"
proof (induction pre arbitrary: i tr)
  case Nil
  then show ?case by simp
next
  case (Cons it pre)
  from Cons.prems obtain b where b: "beautify (provider it) = Some b" "\<And>e. b e = (Rejected, e)"
    by (auto simp: rejects_def)
  have rest: "\<forall>it\<in>set pre. rejects it" using Cons.prems by simp
  have "[i..<i + length (it # pre)] = i # [Suc i..<Suc i + length pre]"
    using upt_conv_Cons [of i "i + length (it # pre)"] by simp
  then show ?case
    using b Cons.IH [OF rest, of "Suc i" "tr @ [Beautify i ed]"] by simp
qed

lemma providerCalls_append: "providerCalls (xs @ ys) = providerCalls xs @ providerCalls ys"
  by (induction xs rule: providerCalls.induct) simp_all










subsection \<open>The preference\<close>

text \<open>
  C8, as the module has it. Toggling twice brings the preference, read the way the module
  reads it, back to what it was, and leaves the menu item checked exactly when the
  preference is on. The stored string itself is the one from before when that was
  \<open>"true"\<close> or \<open>"false"\<close>, and the check mark is the one from before when it agreed
  with the preference.
\<close>

theorem toggle_twice:
  "isBeautifyOnSaveEnabled (toggleBeautifyOnSave (toggleBeautifyOnSave w)) = isBeautifyOnSaveEnabled w
   \<and> beautifyOnSaveChecked (toggleBeautifyOnSave (toggleBeautifyOnSave w)) = isBeautifyOnSaveEnabled w
   \<and> (localStorage w ''BeautifyOnSave'' = Some ''true'' \<or> localStorage w ''BeautifyOnSave'' = Some ''false''
        \<longrightarrow> localStorage (toggleBeautifyOnSave (toggleBeautifyOnSave w)) = localStorage w)
   \<and> (beautifyOnSaveChecked w = isBeautifyOnSaveEnabled w \<longrightarrow>
        beautifyOnSaveChecked (toggleBeautifyOnSave (toggleBeautifyOnSave w)) = beautifyOnSaveChecked w)"
  by (auto simp: toggleBeautifyOnSave_def isBeautifyOnSaveEnabled_def Let_def fun_upd_idem_iff)

theorem toggle_twice_witness:
  "localStorage (toggleBeautifyOnSave (toggleBeautifyOnSave
      ((sampleWorld [])\<lparr>localStorage := [''BeautifyOnSave'' \<mapsto> ''true''], beautifyOnSaveChecked := True\<rparr>)))
     = [''BeautifyOnSave'' \<mapsto> ''true'']
   \<and> beautifyOnSaveChecked (toggleBeautifyOnSave (toggleBeautifyOnSave
      ((sampleWorld [])\<lparr>localStorage := [''BeautifyOnSave'' \<mapsto> ''true''], beautifyOnSaveChecked := True\<rparr>)))"
  using toggle_twice [of "(sampleWorld [])\<lparr>localStorage := [''BeautifyOnSave'' \<mapsto> ''true''],
                                            beautifyOnSaveChecked := True\<rparr>"]
  by (simp add: sampleWorld_def isBeautifyOnSaveEnabled_def)

text \<open>
  C8, as the claim has it, fails when nothing has been stored yet: the first toggle stores
  \<open>"true"\<close>, the second \<open>"false"\<close>, and the store does not go back to holding nothing.
\<close>

theorem toggle_twice_counterexample:
  "localStorage (sampleWorld []) ''BeautifyOnSave'' = None
   \<and> localStorage (toggleBeautifyOnSave (toggleBeautifyOnSave (sampleWorld []))) ''BeautifyOnSave''
       = Some ''false''
   \<and> localStorage (toggleBeautifyOnSave (toggleBeautifyOnSave (sampleWorld []))) ''BeautifyOnSave''
       \<noteq> localStorage (sampleWorld []) ''BeautifyOnSave''"
  by (simp add: toggleBeautifyOnSave_def isBeautifyOnSaveEnabled_def sampleWorld_def Let_def)

subsection \<open>Malformed registrations\<close>

lemma tryProviders_index_free:
  "filter userVisible tr = filter userVisible tr' \<Longrightarrow>
   summary (tryProviders ps i ed tr) = summary (tryProviders ps j ed tr')"
proof (induction ps arbitrary: i j ed tr tr')
  case Nil
  then show ?case by (simp add: summary_def)
next
  case (Cons it ps)
  show ?case
  proof (cases "beautify (provider it)")
    case None
    then show ?thesis using Cons.IH [of "tr @ [ConsoleError i]" "tr' @ [ConsoleError j]" "Suc i" ed "Suc j"] Cons.prems
      by simp
  next
    case (Some b)
    obtain oc ed' where r: "b ed = (oc, ed')" by (cases "b ed")
    have step: "filter userVisible (tr @ [Beautify i ed]) = filter userVisible (tr' @ [Beautify j ed])"
      using Cons.prems by simp
    show ?thesis
    proof (cases oc)
      case Rejected
      then show ?thesis using Some r Cons.IH [OF step, of "Suc i" ed' "Suc j"] by simp
    next
      case (Resolved v)
      then show ?thesis using Some r Cons.IH [OF step, of "Suc i" ed' "Suc j"] Cons.prems
        by (cases v) (simp_all add: summary_def)
    next
      case NeverSettles
      then show ?thesis using Some r Cons.prems by (simp add: summary_def)
    qed
  qed
qed

lemma tryProviders_skip_malformed:
  assumes "beautify (provider bad) = None"
  shows "summary (tryProviders (pre @ bad # post) i ed tr) = summary (tryProviders (pre @ post) i ed tr)"
proof (induction pre arbitrary: i ed tr)
  case Nil
  have "filter userVisible (tr @ [ConsoleError i]) = filter userVisible tr" by simp
  then show ?case using assms tryProviders_index_free [of "tr @ [ConsoleError i]" tr post "Suc i" ed i]
    by simp
next
  case (Cons it pre)
  show ?case
  proof (cases "beautify (provider it)")
    case None
    then show ?thesis using Cons.IH by simp
  next
    case (Some b)
    obtain oc ed' where r: "b ed = (oc, ed')" by (cases "b ed")
    show ?thesis
    proof (cases oc)
      case Rejected
      then show ?thesis using Some r Cons.IH by simp
    next
      case (Resolved v)
      then show ?thesis using Some r Cons.IH by (cases v) (simp_all add: summary_def)
    next
      case NeverSettles
      then show ?thesis using Some r by (simp add: summary_def)
    qed
  qed
qed


lemma prettify_summary:
  assumes "activeEditor w = Some ed" and "activeEditor w' = Some ed"
    and "summary (getBeautifiedCodeDetails w ed (trace w @ [SetProjectBusy True (fileName ed)]))
       = summary (getBeautifiedCodeDetails w' ed (trace w' @ [SetProjectBusy True (fileName ed)]))"
  shows "activeEditor (prettify w) = activeEditor (prettify w')
    \<and> filter userVisible (trace (prettify w)) = filter userVisible (trace (prettify w'))"
proof -
  obtain d e t where r: "getBeautifiedCodeDetails w ed (trace w @ [SetProjectBusy True (fileName ed)]) = (d, e, t)"
    by (metis prod_cases3)
  obtain d' e' t' where r': "getBeautifiedCodeDetails w' ed (trace w' @ [SetProjectBusy True (fileName ed)]) = (d', e', t')"
    by (metis prod_cases3)
  from assms(3) r r' have same: "d' = d" "e' = e" "filter userVisible t' = filter userVisible t"
    by (simp_all add: summary_def)
  show ?thesis
  proof (cases d)
    case (Returned v)
    then show ?thesis using assms(1,2) r r' same
      by (cases v) (simp_all add: prettify_def Let_def)
  next
    case NoProviders
    then show ?thesis using assms(1,2) r r' same by (simp add: prettify_def Let_def)
  next
    case Pending
    then show ?thesis using assms(1,2) r r' same by (simp add: prettify_def Let_def)
  qed
qed

text \<open>
  C9. An entry whose provider has no \<open>beautify\<close> function is passed over with one
  \<open>console.error\<close> naming it, and the loop goes on with the entries behind it and the
  same editor. When the entries before it reject, the diagnostic is in the trace right
  after their calls. Wherever the entry stands in the list, the loop settles the same way,
  leaves the same editor and shows the user the same as for the list without the entry,
  and so does the whole beautify operation.
\<close>

theorem malformed_provider_skipped:
  assumes "beautify (provider bad) = None"
  shows "tryProviders (bad # post) i ed tr = tryProviders post (Suc i) ed (tr @ [ConsoleError i])
    \<and> ((\<forall>it\<in>set pre. rejects it) \<longrightarrow>
         tryProviders (pre @ bad # post) i ed tr =
         tryProviders post (Suc (i + length pre)) ed
           (tr @ map (\<lambda>k. Beautify k ed) [i..<i + length pre] @ [ConsoleError (i + length pre)]))
    \<and> summary (tryProviders (pre @ bad # post) i ed tr) = summary (tryProviders (pre @ post) i ed tr)
    \<and> (activeEditor w = Some ed \<and> activeEditor w' = Some ed \<and> trace w' = trace w \<and>
        getEnabledProviders w ed = pre @ bad # post \<and> getEnabledProviders w' ed = pre @ post \<longrightarrow>
        activeEditor (prettify w) = activeEditor (prettify w') \<and>
        filter userVisible (trace (prettify w)) = filter userVisible (trace (prettify w')))"
proof (intro conjI impI)
  show "tryProviders (bad # post) i ed tr = tryProviders post (Suc i) ed (tr @ [ConsoleError i])"
    using assms by simp
next
  assume "\<forall>it\<in>set pre. rejects it"
  then show "tryProviders (pre @ bad # post) i ed tr =
         tryProviders post (Suc (i + length pre)) ed
           (tr @ map (\<lambda>k. Beautify k ed) [i..<i + length pre] @ [ConsoleError (i + length pre)])"
    using assms by (simp add: tryProviders_rejecting)
next
  show "summary (tryProviders (pre @ bad # post) i ed tr) = summary (tryProviders (pre @ post) i ed tr)"
    using assms by (rule tryProviders_skip_malformed)
next
  assume a: "activeEditor w = Some ed \<and> activeEditor w' = Some ed \<and> trace w' = trace w \<and>
        getEnabledProviders w ed = pre @ bad # post \<and> getEnabledProviders w' ed = pre @ post"
  then have "summary (getBeautifiedCodeDetails w ed (trace w @ [SetProjectBusy True (fileName ed)]))
       = summary (getBeautifiedCodeDetails w' ed (trace w' @ [SetProjectBusy True (fileName ed)]))"
    using tryProviders_skip_malformed [OF assms] by (simp add: getBeautifiedCodeDetails_def)
  with a show "activeEditor (prettify w) = activeEditor (prettify w')"
    and "filter userVisible (trace (prettify w)) = filter userVisible (trace (prettify w'))"
    using prettify_summary [of w ed w'] by simp_all
qed

theorem malformed_provider_skipped_witness:
  "tryProviders [rejecting, malformed, resolving (Some \<lparr>changedText = ''x'', ranges = None\<rparr>)]
       0 sampleEditor []
     = (Returned (Some \<lparr>changedText = ''x'', ranges = None\<rparr>), sampleEditor,
        [Beautify 0 sampleEditor, ConsoleError 1, Beautify 2 sampleEditor])
   \<and> activeEditor (prettify (sampleWorld
        [rejecting, malformed, resolving (Some \<lparr>changedText = ''x'', ranges = None\<rparr>)]))
     = activeEditor (prettify (sampleWorld
        [rejecting, resolving (Some \<lparr>changedText = ''x'', ranges = None\<rparr>)]))
   \<and> filter userVisible (trace (prettify (sampleWorld
        [rejecting, malformed, resolving (Some \<lparr>changedText = ''x'', ranges = None\<rparr>)])))
     = filter userVisible (trace (prettify (sampleWorld
        [rejecting, resolving (Some \<lparr>changedText = ''x'', ranges = None\<rparr>)])))"
  using malformed_provider_skipped [of malformed
      "[resolving (Some \<lparr>changedText = ''x'', ranges = None\<rparr>)]" 0 sampleEditor "[]" "[rejecting]"
      "sampleWorld [rejecting, malformed, resolving (Some \<lparr>changedText = ''x'', ranges = None\<rparr>)]"
      "sampleWorld [rejecting, resolving (Some \<lparr>changedText = ''x'', ranges = None\<rparr>)]"]
  by (simp add: sampleWorld_def sampleEditor_def rejecting_def resolving_def malformed_def
      rejects_def getEnabledProviders_def)

subsection \<open>Beautify on save\<close>

lemma prettify_new_events:
  assumes "activeEditor w = Some ed"
  shows "\<exists>evs. trace (prettify w) = trace w @ SetProjectBusy True (fileName ed) # evs"
proof -
  obtain d e t where r: "tryProviders (getEnabledProviders w ed) 0 ed (trace w @ [SetProjectBusy True (fileName ed)]) = (d, e, t)"
    by (metis prod_cases3)
  have "\<exists>evs. snd (snd (tryProviders ps i ed0 tr)) = tr @ evs" for ps i ed0 tr
  proof (induction ps arbitrary: i ed0 tr)
    case Nil
    then show ?case by simp
  next
    case (Cons it ps)
    show ?case
    proof (cases "beautify (provider it)")
      case None
      then show ?thesis using Cons.IH [of "Suc i" ed0 "tr @ [ConsoleError i]"] by auto
    next
      case (Some b)
      obtain oc ed' where b: "b ed0 = (oc, ed')" by (cases "b ed0")
      show ?thesis using Some b Cons.IH [of "Suc i" ed' "tr @ [Beautify i ed0]"]
        by (cases oc) (auto split: option.splits)
    qed
  qed
  from this [of "getEnabledProviders w ed" 0 ed "trace w @ [SetProjectBusy True (fileName ed)]"] r
  obtain evs where t: "t = trace w @ SetProjectBusy True (fileName ed) # evs" by auto
  show ?thesis using assms r t
    by (cases d) (auto simp: prettify_def getBeautifiedCodeDetails_def Let_def split: option.splits)
qed

text \<open>
  C7. Saving a document runs the beautification exactly when the stored preference is
  \<open>"true"\<close> and there is an active editor whose file path is the saved document's
  path. In every other case, a save of a document in the background among them, the
  handler changes nothing. That the beautification ran is seen in the events the handler
  added: the busy signal was set.
\<close>

theorem prettifyOnSave_trigger:
  "prettifyOnSave w doc =
     (if isBeautifyOnSaveEnabled w \<and> (\<exists>ed. activeEditor w = Some ed \<and> fullPath ed = savedFullPath doc)
      then prettify (w\<lparr>activeEditor := map_option clearSelection (activeEditor w)\<rparr>)
      else w)
   \<and> ((\<exists>n. SetProjectBusy True n \<in> set (newEvents w (prettifyOnSave w doc))) =
       (isBeautifyOnSaveEnabled w \<and> (\<exists>ed. activeEditor w = Some ed \<and> fullPath ed = savedFullPath doc)))"
proof (cases "isBeautifyOnSaveEnabled w \<and> (\<exists>ed. activeEditor w = Some ed \<and> fullPath ed = savedFullPath doc)")
  case True
  then obtain ed where ed: "activeEditor w = Some ed" "fullPath ed = savedFullPath doc" by blast
  have eq: "prettifyOnSave w doc = prettify (w\<lparr>activeEditor := Some (clearSelection ed)\<rparr>)"
    using True ed by (simp add: prettifyOnSave_def)
  obtain evs where "trace (prettify (w\<lparr>activeEditor := Some (clearSelection ed)\<rparr>)) =
      trace w @ SetProjectBusy True (fileName (clearSelection ed)) # evs"
    using prettify_new_events [of "w\<lparr>activeEditor := Some (clearSelection ed)\<rparr>" "clearSelection ed"]
    by auto
  then have "SetProjectBusy True (fileName (clearSelection ed)) \<in> set (newEvents w (prettifyOnSave w doc))"
    by (simp add: eq newEvents_def)
  then show ?thesis using True ed eq by auto
next
  case False
  then have "prettifyOnSave w doc = w"
    by (auto simp: prettifyOnSave_def split: option.splits)
  then show ?thesis using False by (auto simp: newEvents_def)
qed

theorem prettifyOnSave_trigger_witness:
  "(\<exists>n. SetProjectBusy True n \<in> set (newEvents
        ((sampleWorld [rejecting])\<lparr>localStorage := [''BeautifyOnSave'' \<mapsto> ''true'']\<rparr>)
        (prettifyOnSave ((sampleWorld [rejecting])\<lparr>localStorage := [''BeautifyOnSave'' \<mapsto> ''true'']\<rparr>)
           \<lparr>savedFullPath = ''/p/a.js''\<rparr>)))
   \<and> prettifyOnSave ((sampleWorld [rejecting])\<lparr>localStorage := [''BeautifyOnSave'' \<mapsto> ''true'']\<rparr>)
        \<lparr>savedFullPath = ''/p/b.js''\<rparr>
     = (sampleWorld [rejecting])\<lparr>localStorage := [''BeautifyOnSave'' \<mapsto> ''true'']\<rparr>
   \<and> prettifyOnSave (sampleWorld [rejecting]) \<lparr>savedFullPath = ''/p/a.js''\<rparr> = sampleWorld [rejecting]"
  using prettifyOnSave_trigger [of "(sampleWorld [rejecting])\<lparr>localStorage := [''BeautifyOnSave'' \<mapsto> ''true'']\<rparr>"
          "\<lparr>savedFullPath = ''/p/a.js''\<rparr>"]
        prettifyOnSave_trigger [of "(sampleWorld [rejecting])\<lparr>localStorage := [''BeautifyOnSave'' \<mapsto> ''true'']\<rparr>"
          "\<lparr>savedFullPath = ''/p/b.js''\<rparr>"]
        prettifyOnSave_trigger [of "sampleWorld [rejecting]" "\<lparr>savedFullPath = ''/p/a.js''\<rparr>"]
  by (auto simp: sampleWorld_def sampleEditor_def isBeautifyOnSaveEnabled_def)

lemma tryProviders_no_selection:
  assumes "\<forall>it\<in>set ps. keepsNoSelection it" and "\<not> hasSelection ed"
  shows "\<exists>evs. snd (snd (tryProviders ps i ed tr)) = tr @ evs \<and> (\<forall>e\<in>set evs. seesNoSelection e)
           \<and> \<not> hasSelection (fst (snd (tryProviders ps i ed tr)))"
  using assms
proof (induction ps arbitrary: i ed tr)
  case Nil
  then show ?case by simp
next
  case (Cons it ps)
  have rest: "\<forall>it\<in>set ps. keepsNoSelection it" using Cons.prems(1) by simp
  show ?case
  proof (cases "beautify (provider it)")
    case None
    from Cons.IH [OF rest Cons.prems(2), of "Suc i" "tr @ [ConsoleError i]"]
    obtain evs where "snd (snd (tryProviders ps (Suc i) ed (tr @ [ConsoleError i]))) = (tr @ [ConsoleError i]) @ evs"
      "\<forall>e\<in>set evs. seesNoSelection e"
      "\<not> hasSelection (fst (snd (tryProviders ps (Suc i) ed (tr @ [ConsoleError i]))))" by blast
    then show ?thesis using None
      by (intro exI [of _ "ConsoleError i # evs"]) simp
  next
    case (Some b)
    obtain oc ed' where r: "b ed = (oc, ed')" by (cases "b ed")
    have ns: "\<not> hasSelection ed'"
      using Cons.prems Some r by (auto simp: keepsNoSelection_def dest!: spec [of _ b] spec [of _ ed])
    from Cons.IH [OF rest ns, of "Suc i" "tr @ [Beautify i ed]"]
    obtain evs where evs: "snd (snd (tryProviders ps (Suc i) ed' (tr @ [Beautify i ed]))) = (tr @ [Beautify i ed]) @ evs"
      "\<forall>e\<in>set evs. seesNoSelection e"
      "\<not> hasSelection (fst (snd (tryProviders ps (Suc i) ed' (tr @ [Beautify i ed]))))" by blast
    show ?thesis
    proof (cases oc)
      case Rejected
      then show ?thesis using Some r evs Cons.prems(2)
        by (intro exI [of _ "Beautify i ed # evs"]) simp
    next
      case (Resolved v)
      show ?thesis
      proof (cases v)
        case None
        then show ?thesis using Resolved Some r evs Cons.prems(2)
          by (intro exI [of _ "Beautify i ed # evs"]) simp
      next
        case (Some obj)
        then show ?thesis using Resolved \<open>beautify (provider it) = Some b\<close> r ns Cons.prems(2)
          by (intro exI [of _ "[Beautify i ed]"]) simp
      qed
    next
      case NeverSettles
      then show ?thesis using Some r ns Cons.prems(2)
        by (intro exI [of _ "[Beautify i ed]"]) simp
    qed
  qed
qed

lemma tryProviders_extends: "\<exists>evs. snd (snd (tryProviders ps i ed tr)) = tr @ evs"
proof (induction ps arbitrary: i ed tr)
  case Nil
  then show ?case by simp
next
  case (Cons it ps)
  show ?case
  proof (cases "beautify (provider it)")
    case None
    then show ?thesis using Cons.IH [of "Suc i" ed "tr @ [ConsoleError i]"] by auto
  next
    case (Some b)
    obtain oc ed' where b: "b ed = (oc, ed')" by (cases "b ed")
    show ?thesis using Some b Cons.IH [of "Suc i" ed' "tr @ [Beautify i ed]"]
      by (cases oc) (auto split: option.splits)
  qed
qed

lemma tryProviders_first_call:
  "\<exists>evs. snd (snd (tryProviders ps i ed tr)) = tr @ evs
         \<and> list_all (\<lambda>c. snd c = ed) (take 1 (providerCalls evs))"
proof (induction ps arbitrary: i tr)
  case Nil
  then show ?case by simp
next
  case (Cons it ps)
  show ?case
  proof (cases "beautify (provider it)")
    case None
    obtain evs where evs: "snd (snd (tryProviders ps (Suc i) ed (tr @ [ConsoleError i]))) = (tr @ [ConsoleError i]) @ evs"
      "list_all (\<lambda>c. snd c = ed) (take 1 (providerCalls evs))"
      using Cons.IH [of "Suc i" "tr @ [ConsoleError i]"] by blast
    then show ?thesis using None by (intro exI [of _ "ConsoleError i # evs"]) simp
  next
    case (Some b)
    obtain oc ed' where b: "b ed = (oc, ed')" by (cases "b ed")
    obtain evs where evs: "snd (snd (tryProviders ps (Suc i) ed' (tr @ [Beautify i ed]))) = (tr @ [Beautify i ed]) @ evs"
      using tryProviders_extends by blast
    have "\<exists>evs'. snd (snd (tryProviders (it # ps) i ed tr)) = tr @ Beautify i ed # evs'"
      using Some b evs by (cases oc) (auto split: option.splits)
    then obtain evs' where "snd (snd (tryProviders (it # ps) i ed tr)) = tr @ Beautify i ed # evs'"
      by blast
    then show ?thesis by (intro exI [of _ "Beautify i ed # evs'"]) simp
  qed
qed

text \<open>
  C10, as the module has it. When a save runs the beautification, the handler first clears
  the selection of the active editor and runs the beautification on the editor without a
  selection, so the first provider that is called is handed an editor without a selection.
  When no provider selects text itself, every provider is called with an editor without a
  selection, and a message at the cursor, if one is shown, is the one for the whole
  document.
\<close>

theorem save_clears_selection:
  assumes "isBeautifyOnSaveEnabled w"
    and "activeEditor w = Some ed"
    and "fullPath ed = savedFullPath doc"
  shows "prettifyOnSave w doc = prettify (w\<lparr>activeEditor := Some (clearSelection ed)\<rparr>)
    \<and> \<not> hasSelection (clearSelection ed)
    \<and> list_all (\<lambda>c. snd c = clearSelection ed)
         (take 1 (providerCalls (newEvents w (prettifyOnSave w doc))))
    \<and> ((\<forall>it\<in>set (getEnabledProviders w ed). keepsNoSelection it) \<longrightarrow>
         (\<forall>e\<in>set (newEvents w (prettifyOnSave w doc)). seesNoSelection e))"
proof -
  let ?ed = "clearSelection ed" and ?w = "w\<lparr>activeEditor := Some (clearSelection ed)\<rparr>"
  have eq: "prettifyOnSave w doc = prettify ?w"
    using assms(1-3) by (simp add: prettifyOnSave_def)
  have ns: "\<not> hasSelection ?ed"
    by (simp add: clearSelection_def setCursorPos_def hasSelection_def getCursorPos_def Let_def)
  have path: "fullPath ?ed = fullPath ed" "fileName ?ed = fileName ed"
    by (simp_all add: clearSelection_def setCursorPos_def Let_def)
  have ps: "getEnabledProviders ?w ?ed = getEnabledProviders w ed"
    by (simp add: getEnabledProviders_def path)
  let ?t = "trace w @ [SetProjectBusy True (fileName ed)]"
  obtain d e t where r: "tryProviders (getEnabledProviders w ed) 0 ?ed ?t = (d, e, t)"
    by (metis prod_cases3)
  obtain evs where first: "t = ?t @ evs" "list_all (\<lambda>c. snd c = ?ed) (take 1 (providerCalls evs))"
    using tryProviders_first_call [of "getEnabledProviders w ed" 0 ?ed ?t] r by auto
  have tail: "list_all (\<lambda>c. snd c = ?ed) (take 1 (providerCalls (evs @ more)))"
    if "providerCalls more = []" for more
    using first(2) that by (simp add: providerCalls_append)
  have one: "list_all (\<lambda>c. snd c = ?ed) (take 1 (providerCalls (newEvents w (prettify ?w))))"
    using r first(1) tail [of "[]"] tail [of "[SetProjectBusy False (fileName ed), ConsoleLog ''Beautified'']"]
      tail [of "[DisplayErrorMessageAtCursor BEAUTIFY_ERROR_SELECTION, SetProjectBusy False (fileName ed),
                 ConsoleLog ''No beautify providers responded'']"]
      tail [of "[DisplayErrorMessageAtCursor BEAUTIFY_ERROR, SetProjectBusy False (fileName ed),
                 ConsoleLog ''No beautify providers responded'']"]
    by (cases d) (auto simp: prettify_def getBeautifiedCodeDetails_def ps path newEvents_def Let_def
        split: option.splits)
  have all: "\<forall>e\<in>set (newEvents w (prettify ?w)). seesNoSelection e"
    if keep: "\<forall>it\<in>set (getEnabledProviders w ed). keepsNoSelection it"
  proof -
    from tryProviders_no_selection [OF keep ns, of 0 ?t] r
    obtain evs' where evs: "t = ?t @ evs'" "\<forall>e\<in>set evs'. seesNoSelection e" "\<not> hasSelection e"
      by auto
    show ?thesis
      using r evs
      by (cases d) (auto simp: prettify_def getBeautifiedCodeDetails_def ps path newEvents_def Let_def
          split: option.splits)
  qed
  show ?thesis using eq ns one all by simp
qed


theorem save_clears_selection_witness:
  "hasSelection sampleEditor \<and> \<not> hasSelection (clearSelection sampleEditor)
   \<and> trace (prettifyOnSave ((sampleWorld [rejecting])\<lparr>localStorage := [''BeautifyOnSave'' \<mapsto> ''true'']\<rparr>)
        \<lparr>savedFullPath = ''/p/a.js''\<rparr>)
     = [SetProjectBusy True ''a.js'', Beautify 0 (clearSelection sampleEditor),
        DisplayErrorMessageAtCursor BEAUTIFY_ERROR, SetProjectBusy False ''a.js'',
        ConsoleLog ''No beautify providers responded'']"
  using save_clears_selection [of "(sampleWorld [rejecting])\<lparr>localStorage := [''BeautifyOnSave'' \<mapsto> ''true'']\<rparr>"
          sampleEditor "\<lparr>savedFullPath = ''/p/a.js''\<rparr>"]
  by (simp add: sampleWorld_def sampleEditor_def isBeautifyOnSaveEnabled_def rejecting_def
      keepsNoSelection_def getEnabledProviders_def prettify_def getBeautifiedCodeDetails_def
      hasSelection_def clearSelection_def setCursorPos_def getCursorPos_def offsetOf_def
      newline_def Let_def)

text \<open>
  C10, as the claim has it, fails when a provider selects text: the providers are handed
  the editor itself, so the provider called after it sees the selection, and the message
  shown when all have declined is the one for a selection.
\<close>

theorem save_clears_selection_counterexample:
  "trace (prettifyOnSave
      ((sampleWorld [selecting, rejecting])\<lparr>localStorage := [''BeautifyOnSave'' \<mapsto> ''true'']\<rparr>)
      \<lparr>savedFullPath = ''/p/a.js''\<rparr>)
     = [SetProjectBusy True ''a.js'', Beautify 0 (clearSelection sampleEditor),
        Beautify 1 (setSelection \<lparr>line = 0, ch = 0\<rparr> \<lparr>line = 0, ch = 1\<rparr> (clearSelection sampleEditor)),
        DisplayErrorMessageAtCursor BEAUTIFY_ERROR_SELECTION, SetProjectBusy False ''a.js'',
        ConsoleLog ''No beautify providers responded'']
   \<and> hasSelection (setSelection \<lparr>line = 0, ch = 0\<rparr> \<lparr>line = 0, ch = 1\<rparr> (clearSelection sampleEditor))"
  by (simp add: prettifyOnSave_def sampleWorld_def sampleEditor_def isBeautifyOnSaveEnabled_def
      rejecting_def selecting_def getEnabledProviders_def prettify_def getBeautifiedCodeDetails_def
      hasSelection_def clearSelection_def setCursorPos_def setSelection_def getCursorPos_def
      offsetOf_def newline_def Let_def)

subsection \<open>Where the module departs from its documentation\<close>

text \<open>
  C1. The module's documentation says that a provider resolving with \<open>null\<close> has
  beautified the code itself and wants nothing more from the manager. The loop treats
  \<open>null\<close> like a rejection: the next provider is called and its text is applied, and
  when no provider is left the user is shown the error message.
\<close>

theorem null_resolution_continues:
  "trace (prettify (sampleWorld [resolving None, resolving (Some \<lparr>changedText = ''x'', ranges = None\<rparr>)]))
     = [SetProjectBusy True ''a.js'', Beautify 0 sampleEditor, Beautify 1 sampleEditor,
        SetProjectBusy False ''a.js'', ConsoleLog ''Beautified'']
   \<and> map_option docText (activeEditor (prettify
        (sampleWorld [resolving None, resolving (Some \<lparr>changedText = ''x'', ranges = None\<rparr>)])))
     = Some ''x''
   \<and> trace (prettify (sampleWorld [resolving None]))
     = [SetProjectBusy True ''a.js'', Beautify 0 sampleEditor,
        DisplayErrorMessageAtCursor BEAUTIFY_ERROR_SELECTION,
        SetProjectBusy False ''a.js'', ConsoleLog ''No beautify providers responded'']"
  by (simp add: prettify_def getBeautifiedCodeDetails_def getEnabledProviders_def sampleWorld_def
      sampleEditor_def resolving_def replaceText_def getRange_def getEndingCursorPos_def
      offsetOf_def newline_def replaceRange_def spliceText_def setCursorPos_def getCursorPos_def
      hasSelection_def Let_def)

text \<open>
  C4. A provider that resolves with an object whose \<open>changedText\<close> is empty makes
  \<open>_prettify\<close> return before it clears the busy signal: the signal is set and never
  cleared.
\<close>

theorem busy_not_cleared:
  "trace (prettify (sampleWorld [resolving (Some \<lparr>changedText = [], ranges = None\<rparr>)]))
     = [SetProjectBusy True ''a.js'', Beautify 0 sampleEditor]"
  by (simp add: prettify_def getBeautifiedCodeDetails_def getEnabledProviders_def sampleWorld_def
      sampleEditor_def resolving_def Let_def)

end
